theory Spec2Isabelle
  imports Main
begin

section \<open>JavaScript strings and arrays, as far as the editor uses them\<close>

text \<open>
  A JavaScript string is a sequence of UTF-16 code units. The model reads a \<^typ>\<open>char\<close> as
  one code unit in the range 0..255, so \<^typ>\<open>string\<close> covers the strings whose code units
  all lie below 256; \<open>length\<close>, \<open>take\<close> and \<open>drop\<close> are then \<open>.length\<close> and
  \<open>.substring\<close>, and \<open>@\<close> is \<open>+\<close>.
\<close>

abbreviation newline :: char where
  "newline \<equiv> CHR 0x0A"

text \<open>
  \<open>String.prototype.trim\<close> strips white space and line terminators. Below 256 these are
  TAB, LF, VT, FF, CR, SPACE and NBSP.
\<close>

definition js_whitespace :: "char \<Rightarrow> bool" where
  "js_whitespace c = (c = CHR 0x09 \<or> c = CHR 0x0A \<or> c = CHR 0x0B \<or> c = CHR 0x0C
     \<or> c = CHR 0x0D \<or> c = CHR 0x20 \<or> c = CHR 0xA0)"

definition trim :: "string \<Rightarrow> string" where
  "trim s = rev (dropWhile js_whitespace (rev (dropWhile js_whitespace s)))"

text \<open>\<open>s.split('\n')\<close>: never the empty array; the empty string gives one empty line.\<close>

fun split_nl :: "string \<Rightarrow> string list" where
  "split_nl [] = [[]]"
| "split_nl (c # cs) =
     (if c = newline then [] # split_nl cs
      else (c # hd (split_nl cs)) # tl (split_nl cs))"

text \<open>\<open>xs.join(sep)\<close> on an array of strings.\<close>

fun js_join :: "string \<Rightarrow> string list \<Rightarrow> string" where
  "js_join sep [] = []"
| "js_join sep [x] = x"
| "js_join sep (x # y # ys) = x @ sep @ js_join sep (y # ys)"

text \<open>
  \<open>xs.splice(start, 0, x)\<close> and \<open>xs.splice(start, 1)\<close>. A negative \<open>start\<close> counts from
  the end and is clamped at 0; a \<open>start\<close> beyond the end is clamped to the length, where
  nothing is left to delete.
\<close>

definition splice_start :: "'a list \<Rightarrow> int \<Rightarrow> nat" where
  "splice_start xs start =
     (if start < 0 then nat (max (int (length xs) + start) 0)
      else nat (min start (int (length xs))))"

definition splice_insert :: "'a list \<Rightarrow> int \<Rightarrow> 'a \<Rightarrow> 'a list" where
  "splice_insert xs start x =
     (let k = splice_start xs start in take k xs @ [x] @ drop k xs)"

definition splice_delete :: "'a list \<Rightarrow> int \<Rightarrow> 'a list" where
  "splice_delete xs start =
     (let k = splice_start xs start in take k xs @ drop (Suc k) xs)"

text \<open>A \<open>Set\<close> of numbers keeps insertion order: a list without repetitions.\<close>

definition set_add :: "int \<Rightarrow> int list \<Rightarrow> int list" where
  "set_add i xs = (if i \<in> set xs then xs else xs @ [i])"

definition set_delete :: "int \<Rightarrow> int list \<Rightarrow> int list" where
  "set_delete i xs = removeAll i xs"

text \<open>\<open>Array.from(set).sort((a, b) => b - a)\<close>: descending.\<close>

definition sort_desc :: "int list \<Rightarrow> int list" where
  "sort_desc xs = rev (sort xs)"

section \<open>The editor's state\<close>

text \<open>
  The fields of the \<open>Editor\<close> object that carry the document, and the part of the browser
  the editor acts on: a clock in milliseconds, the table of pending \<open>setTimeout\<close> callbacks
  of \<open>debouncedSave\<close> (handle and due time; the callback is always \<open>save\<close>), and the log
  of \<open>Storage.savePage\<close> calls (time, title and content written). \<open>pageAvailable\<close> says
  that \<open>App.currentPageId\<close> is set and \<open>Storage.getPage\<close> finds that page, the two
  tests \<open>save\<close> makes before it writes. The DOM is not modelled: \<open>renderAllBlocks\<close> gives
  every block an element carrying its index, so the element lookups of \<open>editBlock\<close> and
  \<open>finishEditing\<close> succeed for every index in range.
\<close>

datatype js_error = TypeError

record page =
  pid :: string
  title :: string
  content :: string

record editor =
  titleInput :: string
  blocks :: "string list"
  currentBlockIndex :: int
  selectedBlocks :: "int list"
  saveTimeout :: "nat option"
  pageAvailable :: bool
  clock :: nat
  pending :: "(nat \<times> nat) list"
  lastHandle :: nat
  writes :: "(nat \<times> string \<times> string) list"

section \<open>Serialize and deserialize\<close>

text \<open>\<open>getContent\<close> and the body of \<open>save\<close>: \<open>blocks.map(b => b.content).join('\n\n')\<close>.\<close>

definition serialize :: "string list \<Rightarrow> string" where
  "serialize bs = js_join [newline, newline] bs"

text \<open>
  The loop of \<open>loadPage\<close> over the lines: the remaining lines, the pending \<open>blockLines\<close>
  and the blocks pushed so far. \<open>i === lines.length - 1\<close> is "no line remains".
\<close>

fun groupLines :: "string list \<Rightarrow> string list \<Rightarrow> string list \<Rightarrow> string list" where
  "groupLines [] blockLines bs = bs"
| "groupLines (line # rest) blockLines bs =
     (if line = [] \<or> rest = [] then
        (let blockContent = trim (js_join [newline] (blockLines @ [line])) in
         groupLines rest []
           (if blockContent \<noteq> [] \<or> rest = [] then bs @ [blockContent] else bs))
      else groupLines rest (blockLines @ [line]) bs)"

definition deserialize :: "string \<Rightarrow> string list" where
  "deserialize text =
     (let bs = groupLines (split_nl text) [] [] in if bs = [] then [[]] else bs)"

definition loadPage :: "editor \<Rightarrow> page \<Rightarrow> editor" where
  "loadPage s p =
     s\<lparr>titleInput := title p, blocks := deserialize (content p), selectedBlocks := []\<rparr>"

section \<open>Persistence and the debounce timer\<close>

definition save :: "editor \<Rightarrow> editor" where
  "save s =
     (if \<not> pageAvailable s then s
      else s\<lparr>writes := writes s @
        [(clock s, if titleInput s = [] then ''Untitled'' else titleInput s,
          serialize (blocks s))]\<rparr>)"

definition setTimeout :: "editor \<Rightarrow> nat \<Rightarrow> nat \<times> editor" where
  "setTimeout s delay =
     (let h = Suc (lastHandle s)
      in (h, s\<lparr>lastHandle := h, pending := pending s @ [(h, clock s + delay)]\<rparr>))"

definition clearTimeout :: "editor \<Rightarrow> nat \<Rightarrow> editor" where
  "clearTimeout s h = s\<lparr>pending := filter (\<lambda>t. fst t \<noteq> h) (pending s)\<rparr>"

definition debouncedSave :: "editor \<Rightarrow> editor" where
  "debouncedSave s =
     (let s1 = (case saveTimeout s of None \<Rightarrow> s | Some h \<Rightarrow> clearTimeout s h);
          (h, s2) = setTimeout s1 500
      in s2\<lparr>saveTimeout := Some h\<rparr>)"

text \<open>
  Time passes: the callbacks that fall due run in the order of their due times, each at
  its due time, and leave the table.
\<close>

fun fire :: "(nat \<times> nat) list \<Rightarrow> editor \<Rightarrow> editor" where
  "fire [] s = s"
| "fire ((h, due) # ts) s = fire ts (save (s\<lparr>clock := due\<rparr>))"

definition elapse :: "editor \<Rightarrow> nat \<Rightarrow> editor" where
  "elapse s dt =
     (let t = clock s + dt;
          due = filter (\<lambda>x. snd x \<le> t) (pending s);
          s1 = fire (sort_key snd due) (s\<lparr>pending := filter (\<lambda>x. t < snd x) (pending s)\<rparr>)
      in s1\<lparr>clock := t\<rparr>)"

section \<open>The operations of the block editor\<close>

definition finishEditing :: "editor \<Rightarrow> editor" where
  "finishEditing s =
     (if currentBlockIndex s < 0 then s else save (s\<lparr>currentBlockIndex := - 1\<rparr>))"

definition editBlock :: "editor \<Rightarrow> int \<Rightarrow> editor" where
  "editBlock s index =
     (let s1 = finishEditing s
      in if index < 0 \<or> int (length (blocks s1)) \<le> index then s1
         else s1\<lparr>currentBlockIndex := index\<rparr>)"

definition addBlock :: "editor \<Rightarrow> int \<Rightarrow> string \<Rightarrow> editor" where
  "addBlock s atIndex c = debouncedSave (s\<lparr>blocks := splice_insert (blocks s) atIndex c\<rparr>)"

text \<open>\<open>this.blocks[0].content = ''\<close> throws when the array is empty.\<close>

definition deleteBlock :: "editor \<Rightarrow> int \<Rightarrow> js_error + editor" where
  "deleteBlock s index =
     (if length (blocks s) \<le> 1 then
        (if blocks s = [] then Inl TypeError else Inr (s\<lparr>blocks := (blocks s)[0 := []]\<rparr>))
      else Inr (debouncedSave (s\<lparr>blocks := splice_delete (blocks s) index\<rparr>)))"

definition toggleBlockSelection :: "editor \<Rightarrow> int \<Rightarrow> bool \<Rightarrow> editor" where
  "toggleBlockSelection s index selected =
     (if selected then s\<lparr>selectedBlocks := set_add index (selectedBlocks s)\<rparr>
      else s\<lparr>selectedBlocks := set_delete index (selectedBlocks s)\<rparr>)"

text \<open>
  The \<open>forEach\<close> of \<open>deleteSelectedBlocks\<close>. It can only throw on an array that was empty
  from the start, before anything has been changed.
\<close>

fun deleteEach :: "string list \<Rightarrow> int list \<Rightarrow> js_error + string list" where
  "deleteEach bs [] = Inr bs"
| "deleteEach bs (index # rest) =
     (if 1 < length bs then deleteEach (splice_delete bs index) rest
      else if bs = [] then Inl TypeError
      else deleteEach (bs[0 := []]) rest)"

definition deleteSelectedBlocks :: "editor \<Rightarrow> js_error + editor" where
  "deleteSelectedBlocks s =
     (if selectedBlocks s = [] then Inr s
      else (case deleteEach (blocks s) (sort_desc (selectedBlocks s)) of
              Inl e \<Rightarrow> Inl e
            | Inr bs \<Rightarrow> Inr (save (s\<lparr>blocks := bs, selectedBlocks := []\<rparr>))))"

text \<open>
  \<open>block.content += text\<close> throws when \<open>this.blocks[this.currentBlockIndex]\<close> is
  \<open>undefined\<close>. The index handed to \<open>editBlock\<close> is read after \<open>finishEditing\<close> has run.
\<close>

definition insertAtCursor :: "editor \<Rightarrow> string \<Rightarrow> js_error + editor" where
  "insertAtCursor s text =
     (if 0 \<le> currentBlockIndex s then
        (if currentBlockIndex s < int (length (blocks s)) then
           (let i = nat (currentBlockIndex s);
                s1 = s\<lparr>blocks := (blocks s)[i := blocks s ! i @ text]\<rparr>;
                s2 = finishEditing s1;
                s3 = editBlock s2 (currentBlockIndex s2)
            in Inr (debouncedSave s3))
         else Inl TypeError)
      else if 0 < length (blocks s) then
        (let lastIndex = length (blocks s) - 1
         in Inr (debouncedSave (s\<lparr>blocks := (blocks s)[lastIndex := blocks s ! lastIndex @ text]\<rparr>)))
      else Inr (debouncedSave (addBlock s 0 text)))"

subsection \<open>The handlers of the textarea opened by \<open>editBlock(index)\<close>\<close>

text \<open>
  The handlers close over \<open>index\<close>, the block object \<open>block = this.blocks[index]\<close> and the
  textarea. Every change of the array re-renders and so removes the textarea; while the
  handlers can run, \<open>block\<close> is therefore still the element at \<open>index\<close>, and an assignment
  to \<open>block.content\<close> is an update of the array at \<open>index\<close>. \<open>editBlock\<close> opens a
  textarea for an index in range only; for any other index the assignment is modelled as
  reaching no block of the array.
\<close>

record keyEvent =
  key :: string
  shiftKey :: bool

record textarea =
  inputValue :: string
  selectionStart :: nat

definition setContent :: "editor \<Rightarrow> int \<Rightarrow> string \<Rightarrow> editor" where
  "setContent s index c =
     (if 0 \<le> index \<and> index < int (length (blocks s))
      then s\<lparr>blocks := (blocks s)[nat index := c]\<rparr> else s)"

definition onInput :: "editor \<Rightarrow> int \<Rightarrow> string \<Rightarrow> editor" where
  "onInput s index v = debouncedSave (setContent s index v)"

definition onKeydown :: "editor \<Rightarrow> int \<Rightarrow> keyEvent \<Rightarrow> textarea \<Rightarrow> js_error + editor" where
  "onKeydown s index e inp =
     (if key e = ''Enter'' \<and> \<not> shiftKey e then
        (let cursorAtEnd = (selectionStart inp = length (inputValue inp)) in
         if cursorAtEnd then
           Inr (editBlock (addBlock (finishEditing s) (index + 1) []) (index + 1))
         else
           (let beforeCursor = take (selectionStart inp) (inputValue inp);
                afterCursor = drop (selectionStart inp) (inputValue inp)
            in Inr (editBlock
                 (addBlock (finishEditing (setContent s index beforeCursor)) (index + 1) afterCursor)
                 (index + 1))))
      else if key e = ''Backspace'' \<and> inputValue inp = [] \<and> 0 < index then
        (case deleteBlock s index of
           Inl err \<Rightarrow> Inl err
         | Inr s1 \<Rightarrow> Inr (editBlock s1 (index - 1)))
      else if key e = ''ArrowUp'' \<and> selectionStart inp = 0 then
        (if 0 < index then Inr (editBlock (finishEditing s) (index - 1)) else Inr s)
      else if key e = ''ArrowDown'' \<and> selectionStart inp = length (inputValue inp) then
        (if index < int (length (blocks s)) - 1
         then Inr (editBlock (finishEditing s) (index + 1)) else Inr s)
      else if key e = ''Escape'' then Inr (finishEditing s)
      else Inr s)"

subsection \<open>Sequences of operations\<close>

datatype operation =
    EditBlock int
  | FinishEdit
  | KeyDown int keyEvent textarea
  | InputEvent int string
  | InsertBlock int string
  | DeleteBlock int
  | ToggleSelection int bool
  | DeleteSelected
  | InsertAtCursor string
  | Elapse nat

fun perform :: "editor \<Rightarrow> operation \<Rightarrow> js_error + editor" where
  "perform s (EditBlock i) = Inr (editBlock s i)"
| "perform s FinishEdit = Inr (finishEditing s)"
| "perform s (KeyDown i e inp) = onKeydown s i e inp"
| "perform s (InputEvent i v) = Inr (onInput s i v)"
| "perform s (InsertBlock i c) = Inr (addBlock s i c)"
| "perform s (DeleteBlock i) = deleteBlock s i"
| "perform s (ToggleSelection i b) = Inr (toggleBlockSelection s i b)"
| "perform s DeleteSelected = deleteSelectedBlocks s"
| "perform s (InsertAtCursor t) = insertAtCursor s t"
| "perform s (Elapse dt) = Inr (elapse s dt)"

text \<open>
  An exception ends the handler that raised it and leaves the editor as it was (each
  throwing operation throws before its first assignment); the next event finds that state.
\<close>

fun run :: "editor \<Rightarrow> operation list \<Rightarrow> editor" where
  "run s [] = s"
| "run s (x # xs) = run (case perform s x of Inl e \<Rightarrow> s | Inr s' \<Rightarrow> s') xs"

subsection \<open>A run of keystrokes\<close>

text \<open>
  Content-edit keystrokes in the textarea of block \<open>index\<close>: each one comes \<open>gap\<close>
  milliseconds after the event before it and leaves \<open>v\<close> in the textarea.
\<close>

fun keystrokes :: "editor \<Rightarrow> int \<Rightarrow> (nat \<times> string) list \<Rightarrow> editor" where
  "keystrokes s index [] = s"
| "keystrokes s index ((gap, v) # ks) = keystrokes (onInput (elapse s gap) index v) index ks"

text \<open>
  One callback is pending, due 500 ms from now, and \<open>saveTimeout\<close> holds its handle.
\<close>

definition armed :: "editor \<Rightarrow> bool" where
  "armed s =
     (case pending s of
        [t] \<Rightarrow> snd t = clock s + 500 \<and> saveTimeout s = Some (fst t)
      | _ \<Rightarrow> False)"

text \<open>
  Every pending callback is the one whose handle \<open>saveTimeout\<close> holds. It is so in an
  editor with no callback pending, and \<open>debouncedSave\<close> is the only function that sets one.
\<close>

definition timers_tracked :: "editor \<Rightarrow> bool" where
  "timers_tracked s = list_all (\<lambda>t. saveTimeout s = Some (fst t)) (pending s)"

section \<open>Conditions on a block's content\<close>

fun has_double_newline :: "string \<Rightarrow> bool" where
  "has_double_newline (a # b # cs) =
     ((a = newline \<and> b = newline) \<or> has_double_newline (b # cs))"
| "has_double_newline _ = False"

definition no_edge_whitespace :: "string \<Rightarrow> bool" where
  "no_edge_whitespace b =
     (b = [] \<or> (\<not> js_whitespace (hd b) \<and> \<not> js_whitespace (last b)))"

definition round_trip_block :: "string \<Rightarrow> bool" where
  "round_trip_block b = (no_edge_whitespace b \<and> \<not> has_double_newline b)"

section \<open>The stored pages: link resolution and backlinks\<close>

text \<open>
  \<open>Storage.getAllPages()\<close> is the object that \<open>JSON.parse\<close> builds, from page ids to
  pages. It is an association list here, in the order in which \<open>Object.values\<close> lists the
  pages; its own properties are what \<open>map_of\<close> finds. Of a page the id, the title and the
  content are kept.
\<close>

type_synonym storage = "(string \<times> page) list"




text \<open>
  \<open>toLowerCase\<close> on code units below 256: the letters A to Z, and the Latin-1 capitals
  (0xC0 to 0xDE without the multiplication sign 0xD7), move up by 32.
\<close>

definition toLowerCase_char :: "char \<Rightarrow> char" where
  "toLowerCase_char c =
     (let n = (of_char c :: nat)
      in if (65 \<le> n \<and> n \<le> 90) \<or> (192 \<le> n \<and> n \<le> 222 \<and> n \<noteq> 215)
         then char_of (n + 32) else c)"

definition toLowerCase :: "string \<Rightarrow> string" where
  "toLowerCase s = map toLowerCase_char s"

text \<open>\<open>Linking.findPageByTitle\<close>: \<open>Object.values(pages).find(...) || null\<close>.\<close>

definition findPageByTitle :: "storage \<Rightarrow> string \<Rightarrow> page option" where
  "findPageByTitle pages t =
     (let lowerTitle = trim (toLowerCase t)
      in find (\<lambda>p. trim (toLowerCase (title p)) = lowerTitle) (map snd pages))"







text \<open>Two pages that link to the first one, the first one among them.\<close>

definition home :: page where
  "home = \<lparr>pid = ''p1'', title = ''Home'', content = ''Start at [[Home]].''\<rparr>"

definition diary :: page where
  "diary = \<lparr>pid = ''p2'', title = ''Diary'', content = ''Back to [[home]].''\<rparr>"

definition shelf :: storage where
  "shelf = [(''p1'', home), (''p2'', diary)]"

section \<open>A sample editor\<close>

text \<open>
  An editor with a page open, no timer pending and nothing written yet, over the given
  blocks, edit index and selection.
\<close>

definition demo :: "string list \<Rightarrow> int \<Rightarrow> int list \<Rightarrow> editor" where
  "demo bs cur sel = \<lparr>titleInput = ''Notes'', blocks = bs, currentBlockIndex = cur,
     selectedBlocks = sel, saveTimeout = None, pageAvailable = True, clock = 0, pending = [],
     lastHandle = 0, writes = []\<rparr>"

section \<open>What each operation does to the document\<close>

lemma blocks_save [simp]: "blocks (save s) = blocks s"
  and cur_save [simp]: "currentBlockIndex (save s) = currentBlockIndex s"
  and sel_save [simp]: "selectedBlocks (save s) = selectedBlocks s"
  by (simp_all add: save_def)

lemma blocks_debouncedSave [simp]: "blocks (debouncedSave s) = blocks s"
  and cur_debouncedSave [simp]: "currentBlockIndex (debouncedSave s) = currentBlockIndex s"
  and sel_debouncedSave [simp]: "selectedBlocks (debouncedSave s) = selectedBlocks s"
  by (simp_all add: debouncedSave_def setTimeout_def clearTimeout_def Let_def
      split: option.splits)

lemma blocks_finishEditing [simp]: "blocks (finishEditing s) = blocks s"
  and sel_finishEditing [simp]: "selectedBlocks (finishEditing s) = selectedBlocks s"
  by (simp_all add: finishEditing_def)

lemma cur_finishEditing_neg [simp]: "currentBlockIndex (finishEditing s) < 0"
  by (simp add: finishEditing_def)

lemma cur_finishEditing_eq:
  "0 \<le> currentBlockIndex s \<Longrightarrow> currentBlockIndex (finishEditing s) = - 1"
  by (simp add: finishEditing_def)

lemma blocks_editBlock [simp]: "blocks (editBlock s i) = blocks s"
  by (simp add: editBlock_def Let_def)

lemma cur_editBlock_in:
  "0 \<le> i \<Longrightarrow> i < int (length (blocks s)) \<Longrightarrow> currentBlockIndex (editBlock s i) = i"
  by (simp add: editBlock_def Let_def)

lemma blocks_addBlock [simp]: "blocks (addBlock s i c) = splice_insert (blocks s) i c"
  by (simp add: addBlock_def)

lemma splice_insert_in_range:
  "0 \<le> i \<Longrightarrow> i \<le> int (length xs) \<Longrightarrow>
     splice_insert xs i x = take (nat i) xs @ x # drop (nat i) xs"
  by (simp add: splice_insert_def splice_start_def min_def Let_def)

lemma length_splice_insert [simp]: "length (splice_insert xs i x) = Suc (length xs)"
  by (simp add: splice_insert_def splice_start_def Let_def)

section \<open>Inserting text while a block is being edited\<close>

text \<open>
  Claim C3. While block \<open>i\<close> is being edited, \<open>insertAtCursor(text)\<close> appends \<open>text\<close>
  to block \<open>i\<close> and commits the edit. The claim continues: edit mode is then open on
  \<open>i\<close> again. The code calls \<open>this.editBlock(this.currentBlockIndex)\<close> after
  \<open>finishEditing\<close> has set \<open>currentBlockIndex\<close> to \<open>-1\<close>, so the call is
  \<open>editBlock(-1)\<close> and no block is being edited afterwards.
\<close>

theorem C3_insertAtCursor_leaves_edit_mode:
  assumes "0 \<le> currentBlockIndex s" and "currentBlockIndex s < int (length (blocks s))"
  shows "\<exists>s'. insertAtCursor s text = Inr s'
     \<and> blocks s' =
         (blocks s)[nat (currentBlockIndex s) := blocks s ! nat (currentBlockIndex s) @ text]
     \<and> currentBlockIndex s' = - 1"
  using assms
  by (simp add: insertAtCursor_def Let_def cur_finishEditing_eq editBlock_def finishEditing_def)

theorem C3_insertAtCursor_leaves_edit_mode_witness:
  "\<exists>s'. insertAtCursor (demo [''a''] 0 []) ''x'' = Inr s'
     \<and> blocks s' = [''ax''] \<and> currentBlockIndex s' = - 1"
  using C3_insertAtCursor_leaves_edit_mode [of "demo [''a''] 0 []" "''x''"]
  by (simp add: demo_def)

section \<open>Enter in the middle of a block\<close>

text \<open>
  Claim C5. The block at index \<open>i\<close> is being edited, its textarea holds
  \<open>hello world\<close> and the cursor stands at position 5. Enter without shift puts the two
  blocks \<open>hello\<close> and \<open> world\<close> in the place of the block, the blocks before and after
  it staying as they are, and the block being edited is now the second of the two, at
  \<open>i + 1\<close>.
\<close>

theorem C5_enter_splits_block:
  assumes "0 \<le> i" and "i < int (length (blocks s))"
  shows "\<exists>s'. onKeydown s i \<lparr>key = ''Enter'', shiftKey = False\<rparr>
            \<lparr>inputValue = ''hello world'', selectionStart = 5\<rparr> = Inr s'
     \<and> blocks s' =
         take (nat i) (blocks s) @ [''hello'', '' world''] @ drop (Suc (nat i)) (blocks s)
     \<and> currentBlockIndex s' = i + 1"
proof -
  define s1 where "s1 = finishEditing (setContent s i ''hello'')"
  define s2 where "s2 = addBlock s1 (i + 1) '' world''"
  have n: "nat i < length (blocks s)" using assms by simp
  have b1: "blocks s1 = (blocks s)[nat i := ''hello'']"
    using assms by (simp add: s1_def setContent_def)
  have "blocks s2 = splice_insert (blocks s1) (i + 1) '' world''"
    by (simp add: s2_def)
  also have "\<dots> = take (nat (i + 1)) (blocks s1) @ '' world'' # drop (nat (i + 1)) (blocks s1)"
    using assms by (intro splice_insert_in_range) (simp_all add: b1)
  also have "\<dots> =
      take (nat i) (blocks s) @ [''hello'', '' world''] @ drop (Suc (nat i)) (blocks s)"
    using assms n by (simp add: b1 nat_add_distrib upd_conv_take_nth_drop)
  finally have b2: "blocks s2 =
      take (nat i) (blocks s) @ [''hello'', '' world''] @ drop (Suc (nat i)) (blocks s)" .
  have "i + 1 < int (length (blocks s2))"
    using assms by (simp add: s2_def b1)
  then have c: "currentBlockIndex (editBlock s2 (i + 1)) = i + 1"
    using assms by (intro cur_editBlock_in) simp_all
  have "onKeydown s i \<lparr>key = ''Enter'', shiftKey = False\<rparr>
      \<lparr>inputValue = ''hello world'', selectionStart = 5\<rparr> = Inr (editBlock s2 (i + 1))"
    by (simp add: onKeydown_def s1_def s2_def)
  then show ?thesis using b2 c by simp
qed

theorem C5_enter_splits_block_witness:
  "\<exists>s'. onKeydown (demo [''hello world''] 0 []) 0 \<lparr>key = ''Enter'', shiftKey = False\<rparr>
            \<lparr>inputValue = ''hello world'', selectionStart = 5\<rparr> = Inr s'
     \<and> blocks s' = [''hello'', '' world''] \<and> currentBlockIndex s' = 1"
  using C5_enter_splits_block [of 0 "demo [''hello world''] 0 []"] by (simp add: demo_def)

section \<open>Deleting the selected blocks\<close>

text \<open>
  Claim C6. With the blocks \<open>a\<close>, \<open>b\<close>, \<open>c\<close>, \<open>d\<close> and the indices 1 and 3 selected (in
  whichever order they were ticked), \<open>deleteSelectedBlocks\<close> goes through the indices as
  3, then 1, leaves the blocks \<open>a\<close>, \<open>c\<close>, and leaves nothing selected.
\<close>

theorem C6_delete_selected_example:
  assumes "blocks s = [''a'', ''b'', ''c'', ''d'']" and "set (selectedBlocks s) = {1, 3}"
     and "distinct (selectedBlocks s)"
  shows "sort_desc (selectedBlocks s) = [3, 1]
    \<and> (\<exists>s'. deleteSelectedBlocks s = Inr s' \<and> blocks s' = [''a'', ''c'']
          \<and> selectedBlocks s' = [])"
proof -
  have "sort (selectedBlocks s) = sorted_list_of_set (set (selectedBlocks s))"
    using assms(3) by (simp add: sorted_list_of_set_sort_remdups distinct_remdups_id)
  also have "\<dots> = [1, 3]"
    by (simp add: assms(2))
  finally have d: "sort_desc (selectedBlocks s) = [3, 1]"
    by (simp add: sort_desc_def)
  have ne: "selectedBlocks s \<noteq> []"
    using assms(2) by auto
  have e: "deleteEach [''a'', ''b'', ''c'', ''d''] [3, 1] = Inr [''a'', ''c'']"
    by (simp add: splice_delete_def splice_start_def)
  show ?thesis
    using ne by (simp add: d deleteSelectedBlocks_def assms(1) e del: deleteEach.simps)
qed

theorem C6_delete_selected_example_witness:
  "sort_desc [1, 3] = [3, 1]
    \<and> (\<exists>s'. deleteSelectedBlocks (demo [''a'', ''b'', ''c'', ''d''] (- 1) [1, 3]) = Inr s'
         \<and> blocks s' = [''a'', ''c''] \<and> selectedBlocks s' = [])"
  using C6_delete_selected_example [of "demo [''a'', ''b'', ''c'', ''d''] (- 1) [1, 3]"]
  by (simp add: demo_def)

section \<open>Selecting a block\<close>

text \<open>
  Claim C8. \<open>toggleBlockSelection(index, selected)\<close> changes the selection and nothing
  else: \<open>index\<close> joins the selected set when \<open>selected\<close> is true and leaves it when false;
  the blocks and the edit index stay, nothing is written, and no timer is set or cleared.
\<close>

theorem C8_toggle_changes_selection_only:
  "toggleBlockSelection s i sel =
      s\<lparr>selectedBlocks := selectedBlocks (toggleBlockSelection s i sel)\<rparr>
   \<and> set (selectedBlocks (toggleBlockSelection s i sel)) =
      (if sel then insert i (set (selectedBlocks s)) else set (selectedBlocks s) - {i})
   \<and> blocks (toggleBlockSelection s i sel) = blocks s
   \<and> currentBlockIndex (toggleBlockSelection s i sel) = currentBlockIndex s
   \<and> writes (toggleBlockSelection s i sel) = writes s
   \<and> pending (toggleBlockSelection s i sel) = pending s
   \<and> saveTimeout (toggleBlockSelection s i sel) = saveTimeout s"
  by (auto simp add: toggleBlockSelection_def set_add_def set_delete_def)

theorem C8_toggle_changes_selection_only_witness:
  "toggleBlockSelection (demo [''a'', ''b''] 0 [0]) 1 True = demo [''a'', ''b''] 0 [0, 1]
   \<and> toggleBlockSelection (demo [''a'', ''b''] 0 [0, 1]) 0 False = demo [''a'', ''b''] 0 [1]"
  using C8_toggle_changes_selection_only [of "demo [''a'', ''b''] 0 [0]" 1 True]
    C8_toggle_changes_selection_only [of "demo [''a'', ''b''] 0 [0, 1]" 0 False]
  by (simp add: demo_def toggleBlockSelection_def set_add_def set_delete_def)

section \<open>Indices out of range\<close>

lemma splice_delete_beyond: "int (length xs) \<le> i \<Longrightarrow> splice_delete xs i = xs"
  by (simp add: splice_delete_def splice_start_def Let_def min_def)

text \<open>
  Claim C4 says that \<open>editBlock(index)\<close> and \<open>deleteBlock(index)\<close> leave the blocks and
  the edit index as they are when \<open>index\<close> is out of range. Neither does: \<open>editBlock\<close>
  first commits the block being edited, so the edit index goes from 0 to none; and
  \<open>deleteBlock\<close> on a document of one block clears that block whatever the index is.
\<close>

theorem C4_out_of_range_counterexample:
  "\<not> (0 \<le> (5::int) \<and> 5 < int (length (blocks (demo [''a''] 0 []))))
   \<and> currentBlockIndex (editBlock (demo [''a''] 0 []) 5) \<noteq> currentBlockIndex (demo [''a''] 0 [])
   \<and> \<not> (0 \<le> (3::int) \<and> 3 < int (length (blocks (demo [''abc''] (- 1) []))))
   \<and> deleteBlock (demo [''abc''] (- 1) []) 3 = Inr (demo [[]] (- 1) [])"
  by (simp add: demo_def editBlock_def finishEditing_def save_def deleteBlock_def)

text \<open>
  Claim C4, amended. For an index out of range, \<open>editBlock(index)\<close> is
  \<open>finishEditing()\<close>: it raises nothing, leaves the blocks as they are and leaves no block
  being edited; it changes nothing at all when no block was being edited, and otherwise
  writes what \<open>save\<close> writes. \<open>deleteBlock(index)\<close> with an index at or beyond the length,
  on a document of two blocks or more, raises nothing and leaves the blocks and the edit
  index as they are and writes nothing (it only sets the debounce timer anew).
\<close>

theorem C4_out_of_range_index:
  assumes "index < 0 \<or> int (length (blocks s)) \<le> index"
  shows "editBlock s index = finishEditing s
    \<and> blocks (editBlock s index) = blocks s
    \<and> currentBlockIndex (editBlock s index) < 0
    \<and> (if currentBlockIndex s < 0 then editBlock s index = s
        else writes (editBlock s index) = writes (save s))
    \<and> (if 2 \<le> length (blocks s) \<and> 0 \<le> index
        then \<exists>s'. deleteBlock s index = Inr s' \<and> blocks s' = blocks s
               \<and> currentBlockIndex s' = currentBlockIndex s \<and> writes s' = writes s
        else True)"
  using assms
  by (auto simp add: editBlock_def Let_def finishEditing_def deleteBlock_def
      splice_delete_beyond save_def debouncedSave_def setTimeout_def clearTimeout_def
      split: option.splits)

theorem C4_out_of_range_index_witness:
  "editBlock (demo [''a'', ''b''] 1 []) 7 = finishEditing (demo [''a'', ''b''] 1 [])
   \<and> blocks (editBlock (demo [''a'', ''b''] 1 []) 7) = [''a'', ''b'']
   \<and> currentBlockIndex (editBlock (demo [''a'', ''b''] 1 []) 7) = - 1
   \<and> editBlock (demo [''a'', ''b''] (- 1) []) (- 2) = demo [''a'', ''b''] (- 1) []
   \<and> (\<exists>s'. deleteBlock (demo [''a'', ''b''] 1 []) 7 = Inr s' \<and> blocks s' = [''a'', ''b'']
         \<and> currentBlockIndex s' = 1 \<and> writes s' = [])"
  using C4_out_of_range_index [of 7 "demo [''a'', ''b''] 1 []"]
    C4_out_of_range_index [of "- 2" "demo [''a'', ''b''] (- 1) []"]
  by (simp add: demo_def finishEditing_def save_def)

section \<open>The document is never empty\<close>

lemma length_splice_delete: "length xs - 1 \<le> length (splice_delete xs i)"
  by (simp add: splice_delete_def splice_start_def Let_def) arith

lemma splice_delete_nonempty: "1 < length xs \<Longrightarrow> splice_delete xs i \<noteq> []"
  using length_splice_delete [of xs i] by (cases "splice_delete xs i") simp_all

lemma splice_insert_nonempty [simp]: "splice_insert xs i x \<noteq> []"
  by (simp add: splice_insert_def Let_def)

lemma deleteEach_nonempty:
  "bs \<noteq> [] \<Longrightarrow> \<exists>bs'. deleteEach bs is = Inr bs' \<and> bs' \<noteq> []"
  by (induction "is" arbitrary: bs) (simp_all add: splice_delete_nonempty)

lemma blocks_fire [simp]: "blocks (fire ts s) = blocks s"
  by (induction ts s rule: fire.induct) simp_all

lemma blocks_elapse [simp]: "blocks (elapse s dt) = blocks s"
  by (simp add: elapse_def Let_def)

lemma blocks_toggle [simp]: "blocks (toggleBlockSelection s i b) = blocks s"
  by (simp add: toggleBlockSelection_def)

lemma deleteBlock_nonempty:
  "blocks s \<noteq> [] \<Longrightarrow> \<exists>s'. deleteBlock s i = Inr s' \<and> blocks s' \<noteq> []"
  by (simp add: deleteBlock_def splice_delete_nonempty)

lemma deleteSelectedBlocks_nonempty:
  "blocks s \<noteq> [] \<Longrightarrow> \<exists>s'. deleteSelectedBlocks s = Inr s' \<and> blocks s' \<noteq> []"
  using deleteEach_nonempty [of "blocks s" "sort_desc (selectedBlocks s)"]
  by (auto simp add: deleteSelectedBlocks_def)

lemma insertAtCursor_nonempty:
  "blocks s \<noteq> [] \<Longrightarrow> insertAtCursor s t = Inr s' \<Longrightarrow> blocks s' \<noteq> []"
  by (auto simp add: insertAtCursor_def Let_def split: if_splits)

lemma onInput_nonempty: "blocks s \<noteq> [] \<Longrightarrow> blocks (onInput s i v) \<noteq> []"
  by (simp add: onInput_def setContent_def)

lemma onKeydown_nonempty:
  "blocks s \<noteq> [] \<Longrightarrow> onKeydown s i e inp = Inr s' \<Longrightarrow> blocks s' \<noteq> []"
  using deleteBlock_nonempty [of s i]
  by (auto simp add: onKeydown_def Let_def setContent_def split: if_splits)

lemma perform_nonempty:
  "blocks s \<noteq> [] \<Longrightarrow> perform s x = Inr s' \<Longrightarrow> blocks s' \<noteq> []"
proof (cases x)
  case (KeyDown i e inp)
  then show "blocks s \<noteq> [] \<Longrightarrow> perform s x = Inr s' \<Longrightarrow> blocks s' \<noteq> []"
    using onKeydown_nonempty by simp
next
  case (DeleteBlock i)
  then show "blocks s \<noteq> [] \<Longrightarrow> perform s x = Inr s' \<Longrightarrow> blocks s' \<noteq> []"
    using deleteBlock_nonempty [of s i] by auto
next
  case DeleteSelected
  then show "blocks s \<noteq> [] \<Longrightarrow> perform s x = Inr s' \<Longrightarrow> blocks s' \<noteq> []"
    using deleteSelectedBlocks_nonempty [of s] by auto
next
  case (InsertAtCursor t)
  then show "blocks s \<noteq> [] \<Longrightarrow> perform s x = Inr s' \<Longrightarrow> blocks s' \<noteq> []"
    using insertAtCursor_nonempty by simp
qed (auto simp add: onInput_nonempty)

lemma run_nonempty: "blocks s \<noteq> [] \<Longrightarrow> blocks (run s xs) \<noteq> []"
proof (induction xs arbitrary: s)
  case Nil
  then show ?case by simp
next
  case (Cons x xs)
  show ?case
  proof (cases "perform s x")
    case (Inl e)
    then show ?thesis using Cons by simp
  next
    case (Inr s')
    then have "blocks s' \<noteq> []" using Cons.prems perform_nonempty by blast
    then show ?thesis using Cons.IH Inr by simp
  qed
qed

lemma deserialize_nonempty: "deserialize text \<noteq> []"
  by (simp add: deserialize_def Let_def)

text \<open>
  Claim C1. Once \<open>loadPage\<close> has built the document from a page's content, the document
  has at least one block after every finite sequence of operations: \<open>editBlock\<close>,
  \<open>finishEditing\<close>, the keydown and input handlers, \<open>addBlock\<close>, \<open>deleteBlock\<close>,
  \<open>toggleBlockSelection\<close>, \<open>deleteSelectedBlocks\<close>, \<open>insertAtCursor\<close>, and the passing
  of time with the debounce timer firing. The editor before \<open>loadPage\<close>, the page and
  the arguments of the operations are arbitrary.
\<close>

theorem C1_blocks_never_empty: "1 \<le> length (blocks (run (loadPage s p) ops))"
proof -
  have "blocks (loadPage s p) \<noteq> []"
    by (simp add: loadPage_def deserialize_nonempty)
  then have "blocks (run (loadPage s p) ops) \<noteq> []"
    by (rule run_nonempty)
  then show ?thesis
    by (cases "blocks (run (loadPage s p) ops)") simp_all
qed

theorem C1_blocks_never_empty_witness:
  "1 \<le> length (blocks (run (loadPage (demo [] (- 1) []) \<lparr>pid = ''p1'', title = ''T'', content = ''a''\<rparr>)
      [EditBlock 0,
       KeyDown 0 \<lparr>key = ''Enter'', shiftKey = False\<rparr> \<lparr>inputValue = ''a'', selectionStart = 1\<rparr>,
       ToggleSelection 0 True, ToggleSelection 1 True, DeleteSelected, DeleteBlock 0]))"
  by (rule C1_blocks_never_empty)

section \<open>Saving and loading again\<close>

lemma split_nl_nonempty [simp]: "split_nl s \<noteq> []"
  by (induction s) simp_all

lemma split_nl_hd_tl: "hd (split_nl s) # tl (split_nl s) = split_nl s"
  by simp

lemma split_nl_append: "split_nl (a @ newline # b) = split_nl a @ split_nl b"
  by (induction a) simp_all

lemma js_join_Cons_Cons: "js_join sep ((c # x) # xs) = c # js_join sep (x # xs)"
  by (cases xs) simp_all

lemma js_join_split_nl: "js_join [newline] (split_nl s) = s"
proof (induction s)
  case Nil
  then show ?case by simp
next
  case (Cons c cs)
  show ?case
  proof (cases "c = newline")
    case True
    obtain l ls where L: "split_nl cs = l # ls" by (cases "split_nl cs") simp_all
    then show ?thesis using Cons True by simp
  next
    case False
    then have "js_join [newline] (split_nl (c # cs)) = c # js_join [newline] (hd (split_nl cs) # tl (split_nl cs))"
      by (simp add: js_join_Cons_Cons del: list.collapse)
    then show ?thesis using Cons by simp
  qed
qed

lemma lines_of_block:
  "\<not> has_double_newline b \<Longrightarrow> b \<noteq> [] \<Longrightarrow> last b \<noteq> newline \<Longrightarrow>
     [] \<notin> set (tl (split_nl b)) \<and> (hd b \<noteq> newline \<longrightarrow> hd (split_nl b) \<noteq> [])"
proof (induction b)
  case Nil
  then show ?case by simp
next
  case (Cons c cs)
  show ?case
  proof (cases cs)
    case Nil
    then show ?thesis using Cons.prems by simp
  next
    case (Cons c' cs')
    then have ih: "[] \<notin> set (tl (split_nl cs))" "hd cs \<noteq> newline \<longrightarrow> hd (split_nl cs) \<noteq> []"
      using Cons.IH Cons.prems by simp_all
    have s: "split_nl cs = hd (split_nl cs) # tl (split_nl cs)" by simp
    show ?thesis
    proof (cases "c = newline")
      case True
      then have "hd cs \<noteq> newline" using Cons.prems Cons by auto
      then have "[] \<notin> set (split_nl cs)" using ih s by (metis set_ConsD)
      then show ?thesis using True by simp
    next
      case False
      then show ?thesis using ih by simp
    qed
  qed
qed

lemma lines_nonempty:
  assumes "round_trip_block b" and "b \<noteq> []"
  shows "[] \<notin> set (split_nl b)"
proof -
  have "\<not> js_whitespace (hd b)" "\<not> js_whitespace (last b)"
    using assms by (simp_all add: round_trip_block_def no_edge_whitespace_def)
  then have "hd b \<noteq> newline" "last b \<noteq> newline"
    by (auto simp add: js_whitespace_def)
  moreover have "\<not> has_double_newline b" using assms by (simp add: round_trip_block_def)
  ultimately have "[] \<notin> set (tl (split_nl b))" "hd (split_nl b) \<noteq> []"
    using lines_of_block [of b] assms(2) by simp_all
  then show ?thesis
    by (metis split_nl_hd_tl set_ConsD)
qed

lemma groupLines_nonempty_lines:
  "[] \<notin> set ls \<Longrightarrow> rest \<noteq> [] \<Longrightarrow> groupLines (ls @ rest) acc bs = groupLines rest (acc @ ls) bs"
  by (induction ls arbitrary: acc) auto

lemma groupLines_last_group:
  "[] \<notin> set ls \<Longrightarrow> ls \<noteq> [] \<Longrightarrow>
     groupLines ls acc bs = bs @ [trim (js_join [newline] (acc @ ls))]"
proof (induction ls arbitrary: acc)
  case Nil
  then show ?case by simp
next
  case (Cons l ls)
  then show ?case by (cases ls) (auto simp add: Let_def)
qed

lemma dropWhile_hd: "xs \<noteq> [] \<Longrightarrow> \<not> P (hd xs) \<Longrightarrow> dropWhile P xs = xs"
  by (cases xs) simp_all

lemma trim_block: "no_edge_whitespace b \<Longrightarrow> trim b = b"
proof (cases b)
  case Nil
  then show ?thesis by (simp add: trim_def)
next
  case (Cons c cs)
  assume "no_edge_whitespace b"
  then have h: "\<not> js_whitespace (hd b)" and l: "\<not> js_whitespace (last b)"
    using Cons by (simp_all add: no_edge_whitespace_def)
  have "dropWhile js_whitespace b = b" using h Cons by simp
  moreover have "b \<noteq> []" using Cons by simp
  then have "dropWhile js_whitespace (rev b) = rev b"
    using l by (intro dropWhile_hd) (simp_all only: hd_rev rev_is_Nil_conv not_False_eq_True)
  ultimately show ?thesis by (simp add: trim_def)
qed

lemma trim_block_newline: "no_edge_whitespace b \<Longrightarrow> b \<noteq> [] \<Longrightarrow> trim (b @ [newline]) = b"
proof -
  assume a: "no_edge_whitespace b" "b \<noteq> []"
  then have h: "\<not> js_whitespace (hd b)"
    by (simp add: no_edge_whitespace_def)
  have "dropWhile js_whitespace (b @ [newline]) = b @ [newline]"
    using h a(2) by (cases b) simp_all
  moreover have "dropWhile js_whitespace (rev (b @ [newline])) = dropWhile js_whitespace (rev b)"
    by (simp add: js_whitespace_def)
  ultimately have "trim (b @ [newline]) = trim b"
    using h a(2) by (cases b) (simp_all add: trim_def)
  then show ?thesis using a(1) by (simp add: trim_block)
qed

lemma js_join_snoc_empty: "ls \<noteq> [] \<Longrightarrow> js_join sep (ls @ [[]]) = js_join sep ls @ sep"
  by (induction sep ls rule: js_join.induct) simp_all

lemma serialize_Cons: "rest \<noteq> [] \<Longrightarrow> serialize (b # rest) = b @ newline # newline # serialize rest"
  by (cases rest) (simp_all add: serialize_def)

lemma groupLines_serialize:
  "d \<noteq> [] \<Longrightarrow> \<forall>b \<in> set d. round_trip_block b \<Longrightarrow> \<forall>b \<in> set (butlast d). b \<noteq> [] \<Longrightarrow>
     groupLines (split_nl (serialize d)) [] bs = bs @ d"
proof (induction d arbitrary: bs)
  case Nil
  then show ?case by simp
next
  case (Cons b rest)
  have rb: "round_trip_block b" using Cons.prems by simp
  then have ne: "no_edge_whitespace b" by (simp add: round_trip_block_def)
  show ?case
  proof (cases rest)
    case Nil
    show ?thesis
    proof (cases "b = []")
      case True
      then show ?thesis using Nil by (simp add: serialize_def trim_def)
    next
      case False
      then have "[] \<notin> set (split_nl b)" using rb lines_nonempty by simp
      then have "groupLines (split_nl b) [] bs = bs @ [trim (js_join [newline] ([] @ split_nl b))]"
        by (intro groupLines_last_group) simp_all
      then show ?thesis using Nil ne by (simp add: serialize_def js_join_split_nl trim_block)
    qed
  next
    case (Cons b' rest')
    then have bne: "b \<noteq> []" using Cons.prems by simp
    then have L: "[] \<notin> set (split_nl b)" using rb lines_nonempty by simp
    have "split_nl (serialize (b # rest)) = split_nl b @ [] # split_nl (serialize rest)"
      using Cons by (simp add: serialize_Cons split_nl_append)
    then have "groupLines (split_nl (serialize (b # rest))) [] bs
        = groupLines ([] # split_nl (serialize rest)) ([] @ split_nl b) bs"
      using L groupLines_nonempty_lines [of "split_nl b" "[] # split_nl (serialize rest)" "[]" bs]
      by simp
    also have "\<dots> = groupLines (split_nl (serialize rest)) [] (bs @ [b])"
      using bne ne by (simp add: js_join_snoc_empty js_join_split_nl trim_block_newline)
    also have "\<dots> = (bs @ [b]) @ rest"
      using Cons.prems Cons by (intro Cons.IH) simp_all
    finally show ?thesis by simp
  qed
qed

text \<open>
  Claim C2 says that \<open>Deserialize(Serialize(d)) = d\<close> for every document whose blocks
  have no white space at either end and no two newlines in a row. The empty block is
  such a block, and \<open>loadPage\<close> drops every empty group of lines but the last: the
  document of an empty block followed by the block \<open>a\<close> comes back as the block \<open>a\<close>
  alone.
\<close>

theorem C2_round_trip_counterexample:
  "round_trip_block [] \<and> round_trip_block ''a''
   \<and> deserialize (serialize [[], ''a'']) = [''a'']
   \<and> deserialize (serialize [[], ''a'']) \<noteq> [[], ''a'']"
  by (simp add: round_trip_block_def no_edge_whitespace_def js_whitespace_def
      deserialize_def serialize_def trim_def)

text \<open>
  Claim C2, amended. For every document (a block sequence that is not empty) whose blocks
  have no white space at either end and no two newlines in a row, and whose blocks other
  than the last are not empty, \<open>Deserialize(Serialize(d)) = d\<close>.
\<close>

theorem C2_round_trip:
  assumes "d \<noteq> []" and "\<forall>b \<in> set d. round_trip_block b"
    and "\<forall>b \<in> set (butlast d). b \<noteq> []"
  shows "deserialize (serialize d) = d"
  using assms groupLines_serialize [of d "[]"] by (simp add: deserialize_def)

theorem C2_round_trip_witness:
  "deserialize (serialize [''# Plan'', [CHR ''a'', newline, CHR ''b''], []]) =
     [''# Plan'', [CHR ''a'', newline, CHR ''b''], []]"
  using C2_round_trip [of "[''# Plan'', [CHR ''a'', newline, CHR ''b''], []]"]
  by (simp add: round_trip_block_def no_edge_whitespace_def js_whitespace_def)

section \<open>Resolving a link\<close>

text \<open>
  Claim C9 says that \<open>findPageByTitle\<close> finds a page exactly when some stored title
  equals the query with letter case ignored. The code also trims both sides: the query
  \<open>home\<close> followed by a space finds the page titled \<open>Home\<close>, which it does not equal in
  any letter case.
\<close>

theorem C9_find_page_counterexample:
  "findPageByTitle [(''p1'', home)] ''home '' = Some home
   \<and> toLowerCase (title home) \<noteq> toLowerCase ''home ''"
  by code_simp

text \<open>
  Claim C9, amended. \<open>findPageByTitle\<close> returns a page exactly when some stored page's
  title, put in lower case and trimmed, equals the query put in lower case and trimmed;
  the page it returns is a stored page with such a title; otherwise it returns null.
\<close>

theorem C9_find_page_by_title:
  "(findPageByTitle pages t \<noteq> None) =
      (\<exists>p \<in> set (map snd pages). trim (toLowerCase (title p)) = trim (toLowerCase t))
   \<and> (\<forall>p. findPageByTitle pages t = Some p \<longrightarrow>
         p \<in> set (map snd pages) \<and> trim (toLowerCase (title p)) = trim (toLowerCase t))"
  by (auto simp add: findPageByTitle_def Let_def find_None_iff find_Some_iff)

theorem C9_find_page_by_title_witness:
  "findPageByTitle shelf ''  DIARY'' \<noteq> None \<and> findPageByTitle shelf ''Atlas'' = None"
proof -
  have d: "diary \<in> set (map snd shelf)"
    by (simp add: shelf_def)
  have "trim (toLowerCase (title diary)) = trim (toLowerCase ''  DIARY'')"
    by code_simp
  then have 1: "findPageByTitle shelf ''  DIARY'' \<noteq> None"
    using C9_find_page_by_title [of shelf "''  DIARY''"] d by blast
  have "trim (toLowerCase (title home)) \<noteq> trim (toLowerCase ''Atlas'')"
    "trim (toLowerCase (title diary)) \<noteq> trim (toLowerCase ''Atlas'')"
    by code_simp+
  then have "\<not> (\<exists>p \<in> set (map snd shelf). trim (toLowerCase (title p)) = trim (toLowerCase ''Atlas''))"
    by (simp add: shelf_def)
  then have 2: "findPageByTitle shelf ''Atlas'' = None"
    using C9_find_page_by_title [of shelf "''Atlas''"] by blast
  show ?thesis using 1 2 by simp
qed

section \<open>Backlinks\<close>




section \<open>The debounced save\<close>

lemma onInput_armed:
  assumes "timers_tracked s"
  shows "armed (onInput s i v)" "writes (onInput s i v) = writes s" "clock (onInput s i v) = clock s"
    "pageAvailable (onInput s i v) = pageAvailable s" "titleInput (onInput s i v) = titleInput s"
    "pending (onInput s i v) = [(Suc (lastHandle s), clock s + 500)]"
proof -
  have "filter (\<lambda>t. fst t \<noteq> h) (pending s) = []" if "saveTimeout s = Some h" for h
    using assms that by (auto simp add: timers_tracked_def list_all_iff filter_empty_conv)
  moreover have "pending s = []" if "saveTimeout s = None"
    using assms that by (cases "pending s") (simp_all add: timers_tracked_def)
  ultimately show "pending (onInput s i v) = [(Suc (lastHandle s), clock s + 500)]"
    by (cases "saveTimeout s") (simp_all add: onInput_def debouncedSave_def setContent_def setTimeout_def clearTimeout_def Let_def)
  then show "armed (onInput s i v)"
    by (simp add: armed_def) (simp add: onInput_def debouncedSave_def setContent_def setTimeout_def clearTimeout_def Let_def split: option.splits)
  show "writes (onInput s i v) = writes s" "clock (onInput s i v) = clock s"
    "pageAvailable (onInput s i v) = pageAvailable s" "titleInput (onInput s i v) = titleInput s"
    by (simp_all add: onInput_def debouncedSave_def setContent_def setTimeout_def clearTimeout_def Let_def split: option.splits)
qed

lemma armed_tracked: "armed s \<Longrightarrow> timers_tracked s"
  by (auto simp add: armed_def timers_tracked_def split: list.splits)

lemma elapse_before_due:
  assumes "armed s" and "dt < 500"
  shows "elapse s dt = s\<lparr>clock := clock s + dt\<rparr>"
proof -
  obtain t where p: "pending s = [t]" "snd t = clock s + 500"
    using assms(1) by (auto simp add: armed_def split: list.splits)
  then show ?thesis using assms(2) by (simp add: elapse_def Let_def)
qed

lemma elapse_after_due:
  assumes "armed s" and "500 \<le> dt" and "pageAvailable s"
  shows "writes (elapse s dt) = writes s @ [(clock s + 500, if titleInput s = [] then ''Untitled'' else titleInput s, serialize (blocks s))]"
    "pending (elapse s dt) = []"
proof -
  obtain t where p: "pending s = [t]" "snd t = clock s + 500"
    using assms(1) by (auto simp add: armed_def split: list.splits)
  obtain h d where t: "t = (h, d)" by (cases t)
  show "writes (elapse s dt) = writes s @ [(clock s + 500, if titleInput s = [] then ''Untitled'' else titleInput s, serialize (blocks s))]"
    using assms(2,3) p t by (simp add: elapse_def Let_def save_def)
  show "pending (elapse s dt) = []"
    using assms(2,3) p t by (simp add: elapse_def Let_def save_def)
qed


lemma keystroke_step:
  assumes "armed s" and "gap < 500"
  shows "armed (onInput (elapse s gap) i v)"
    and "writes (onInput (elapse s gap) i v) = writes s"
    and "clock (onInput (elapse s gap) i v) = clock s + gap"
    and "pageAvailable (onInput (elapse s gap) i v) = pageAvailable s"
    and "titleInput (onInput (elapse s gap) i v) = titleInput s"
proof -
  have e: "elapse s gap = s\<lparr>clock := clock s + gap\<rparr>"
    using assms by (rule elapse_before_due)
  have "timers_tracked s" using assms(1) by (rule armed_tracked)
  then have t: "timers_tracked (elapse s gap)"
    by (simp add: e timers_tracked_def)
  show "armed (onInput (elapse s gap) i v)"
    using t by (rule onInput_armed)
  show "writes (onInput (elapse s gap) i v) = writes s"
    using onInput_armed(2) [OF t] by (simp add: e)
  show "clock (onInput (elapse s gap) i v) = clock s + gap"
    using onInput_armed(3) [OF t] by (simp add: e)
  show "pageAvailable (onInput (elapse s gap) i v) = pageAvailable s"
    using onInput_armed(4) [OF t] by (simp add: e)
  show "titleInput (onInput (elapse s gap) i v) = titleInput s"
    using onInput_armed(5) [OF t] by (simp add: e)
qed

lemma keystrokes_armed:
  assumes "armed s" and "\<forall>k \<in> set ks. fst k < 500"
  shows "armed (keystrokes s i ks) \<and> writes (keystrokes s i ks) = writes s
    \<and> clock (keystrokes s i ks) = clock s + sum_list (map fst ks)
    \<and> pageAvailable (keystrokes s i ks) = pageAvailable s
    \<and> titleInput (keystrokes s i ks) = titleInput s"
  using assms
proof (induction ks arbitrary: s)
  case Nil
  then show ?case by simp
next
  case (Cons k ks)
  obtain gap v where k: "k = (gap, v)" by (cases k)
  have g: "gap < 500" using Cons.prems k by simp
  note st = keystroke_step [OF Cons.prems(1) g, of i v]
  have "\<forall>k \<in> set ks. fst k < 500" using Cons.prems by simp
  from Cons.IH [OF st(1) this] show ?case
    by (simp add: k st(2-5))
qed

text \<open>
  Every operation keeps the pending callbacks tracked, so an editor that starts with no
  callback pending has them tracked whatever was done to it.
\<close>

lemma tracked_save [simp]: "timers_tracked (save s) = timers_tracked s"
  by (simp add: timers_tracked_def save_def)

lemma tracked_debouncedSave [simp]: "timers_tracked s \<Longrightarrow> timers_tracked (debouncedSave s)"
  by (auto simp add: timers_tracked_def debouncedSave_def setTimeout_def clearTimeout_def Let_def
      list_all_iff split: option.splits)

lemma tracked_update [simp]:
  "timers_tracked (s\<lparr>blocks := bs\<rparr>) = timers_tracked s"
  "timers_tracked (s\<lparr>currentBlockIndex := c\<rparr>) = timers_tracked s"
  "timers_tracked (s\<lparr>selectedBlocks := sel\<rparr>) = timers_tracked s"
  "timers_tracked (s\<lparr>clock := t\<rparr>) = timers_tracked s"
  by (simp_all add: timers_tracked_def)

lemma tracked_finishEditing [simp]: "timers_tracked (finishEditing s) = timers_tracked s"
  by (simp add: finishEditing_def)

lemma tracked_editBlock [simp]: "timers_tracked (editBlock s i) = timers_tracked s"
  by (simp add: editBlock_def Let_def)

lemma tracked_fire: "timers_tracked (fire ts s) = timers_tracked s"
  by (induction ts s rule: fire.induct) simp_all

lemma tracked_elapse: "timers_tracked s \<Longrightarrow> timers_tracked (elapse s dt)"
  by (simp add: elapse_def Let_def tracked_fire) (simp add: timers_tracked_def list_all_iff)

lemma tracked_perform: "timers_tracked s \<Longrightarrow> perform s x = Inr s' \<Longrightarrow> timers_tracked s'"
  by (cases x)
    (auto simp add: onKeydown_def onInput_def setContent_def addBlock_def deleteBlock_def
      toggleBlockSelection_def deleteSelectedBlocks_def insertAtCursor_def tracked_elapse Let_def
      split: if_splits sum.splits)

lemma tracked_run: "timers_tracked s \<Longrightarrow> timers_tracked (run s xs)"
proof (induction xs arbitrary: s)
  case Nil
  then show ?case by simp
next
  case (Cons x xs)
  then show ?case
    by (cases "perform s x") (auto dest: tracked_perform)
qed

lemma tracked_loadPage: "timers_tracked (loadPage s p) = timers_tracked s"
  by (simp add: loadPage_def timers_tracked_def)

lemma blocks_onInput:
  "0 \<le> i \<Longrightarrow> i < int (length (blocks s)) \<Longrightarrow> blocks (onInput s i v) = (blocks s)[nat i := v]"
  by (simp add: onInput_def setContent_def)

text \<open>
  Claim C7. A page is open and every pending callback is the one \<open>saveTimeout\<close> names.
  A keystroke \<open>v\<close> is followed by the keystrokes \<open>ks\<close>, each less than 500 ms after the
  one before. After the last of them exactly one callback is pending (the ones set by the
  earlier keystrokes are cleared), due 500 ms after it, and nothing has been written.
  When \<open>dt\<close> more milliseconds have passed, nothing has been written if \<open>dt < 500\<close>, and
  otherwise exactly one write has been made, at 500 ms after the last keystroke, of the
  document as the last keystroke left it, and no callback is pending.
\<close>

theorem C7_debounce_one_write:
  assumes "pageAvailable s" and "timers_tracked s" and "\<forall>k \<in> set ks. fst k < 500"
  shows "armed (keystrokes (onInput s i v) i ks)
    \<and> clock (keystrokes (onInput s i v) i ks) = clock s + sum_list (map fst ks)
    \<and> writes (keystrokes (onInput s i v) i ks) = writes s
    \<and> writes (elapse (keystrokes (onInput s i v) i ks) dt) =
        (if dt < 500 then writes s
         else writes s @ [(clock s + sum_list (map fst ks) + 500,
                           if titleInput s = [] then ''Untitled'' else titleInput s,
                           serialize (blocks (keystrokes (onInput s i v) i ks)))])
    \<and> pending (elapse (keystrokes (onInput s i v) i ks) dt) =
        (if dt < 500 then pending (keystrokes (onInput s i v) i ks) else [])"
proof -
  define s1 where "s1 = onInput s i v"
  define s' where "s' = keystrokes s1 i ks"
  note a = onInput_armed [OF assms(2), of i v]
  have k: "armed s'" "writes s' = writes s" "clock s' = clock s + sum_list (map fst ks)"
    "pageAvailable s'" "titleInput s' = titleInput s"
    using keystrokes_armed [OF a(1) assms(3), of i] assms(1) a(2-5)
    by (simp_all add: s'_def s1_def)
  have "writes (elapse s' dt) = writes s \<and> pending (elapse s' dt) = pending s'" if "dt < 500"
    using elapse_before_due [OF k(1) that] k(2) by simp
  moreover have "writes (elapse s' dt) = writes s @ [(clock s + sum_list (map fst ks) + 500,
      if titleInput s = [] then ''Untitled'' else titleInput s, serialize (blocks s'))]
      \<and> pending (elapse s' dt) = []" if "500 \<le> dt"
    using elapse_after_due [OF k(1) that k(4)] k(2,3,5) by simp
  ultimately show ?thesis using k(1,2,3) unfolding s'_def s1_def
    by (cases "dt < 500") simp_all
qed


theorem C7_debounce_one_write_witness:
  "armed (keystrokes (onInput (demo [''ab''] 0 []) 0 ''abc'') 0 [(120, ''abcd''), (499, ''abcde'')])
   \<and> writes (elapse (keystrokes (onInput (demo [''ab''] 0 []) 0 ''abc'') 0
        [(120, ''abcd''), (499, ''abcde'')]) 499) = []
   \<and> writes (elapse (keystrokes (onInput (demo [''ab''] 0 []) 0 ''abc'') 0
        [(120, ''abcd''), (499, ''abcde'')]) 500) = [(1119, ''Notes'', ''abcde'')]"
proof -
  have h: "pageAvailable (demo [''ab''] 0 [])" "timers_tracked (demo [''ab''] 0 [])"
    "\<forall>k \<in> set [(120, ''abcd''), (499, ''abcde'')]. fst k < (500::nat)"
    by (simp_all add: demo_def timers_tracked_def)
  have b: "blocks (keystrokes (onInput (demo [''ab''] 0 []) 0 ''abc'') 0
      [(120, ''abcd''), (499, ''abcde'')]) = [''abcde'']"
    by (simp add: blocks_onInput demo_def)
  show ?thesis
    using C7_debounce_one_write [OF h, of 0 "''abc''" 499]
      C7_debounce_one_write [OF h, of 0 "''abc''" 500] b
    by (simp add: demo_def serialize_def)
qed

end
